theory Spec2Isabelle
  imports Complex_Main
begin

section \<open>Numbers, exceptions and numpy results\<close>

text \<open>
  The notebooks compute with Python numbers. A Python \<open>float\<close> is modelled by a HOL
  \<open>real\<close>: rounding and the finite range of binary64 are left out, so every statement
  below is about the exact arithmetic the code spells out, and a property that rests on the
  order in which binary64 additions are carried out cannot be expressed. What is kept is everything the
  interpreter does besides arithmetic: a division of Python numbers by zero raises
  \<open>ZeroDivisionError\<close>, a failing \<open>assert\<close> raises \<open>AssertionError\<close>, \<open>zip\<close> stops at
  the shortest sequence, and \<open>np.log\<close> does not raise outside its domain but returns
  \<open>-inf\<close> at zero and \<open>nan\<close> below it. Arguments are Python numbers (\<open>int\<close> or
  \<open>float\<close>) and lists of them, as in the calls of the docstrings.
\<close>

datatype error = ZeroDivisionError | AssertionError

text \<open>A value produced by numpy arithmetic: a finite number, an infinity or \<open>nan\<close>.\<close>

datatype npfloat = Finite real | PosInf | NegInf | NaN

text \<open>Sequencing of computations that may raise: the first exception wins.\<close>

definition bind_e :: "error + 'a \<Rightarrow> ('a \<Rightarrow> error + 'b) \<Rightarrow> error + 'b" where
  "bind_e m f = (case m of Inl err \<Rightarrow> Inl err | Inr v \<Rightarrow> f v)"

text \<open>\<open>a / b\<close> on Python numbers.\<close>

definition py_div :: "real \<Rightarrow> real \<Rightarrow> error + real" where
  "py_div a b = (if b = 0 then Inl ZeroDivisionError else Inr (a / b))"

text \<open>\<open>np.log(x)\<close> for a Python number \<open>x\<close>.\<close>

definition np_log :: "real \<Rightarrow> npfloat" where
  "np_log x = (if 0 < x then Finite (ln x) else if x = 0 then NegInf else NaN)"

text \<open>The product of a Python float and a numpy value (in either order).\<close>

fun np_mul :: "real \<Rightarrow> npfloat \<Rightarrow> npfloat" where
  "np_mul r (Finite x) = Finite (r * x)"
| "np_mul r PosInf = (if 0 < r then PosInf else if r < 0 then NegInf else NaN)"
| "np_mul r NegInf = (if 0 < r then NegInf else if r < 0 then PosInf else NaN)"
| "np_mul r NaN = NaN"

section \<open>Synapses\<close>

text \<open>\<open>def heaviside(x): return x >= 0\<close>\<close>

definition heaviside :: "real \<Rightarrow> bool" where
  "heaviside x = (x \<ge> 0)"

text \<open>\<open>float(b)\<close> for a Python bool.\<close>

definition float_of_bool :: "bool \<Rightarrow> real" where
  "float_of_bool b = (if b then 1 else 0)"

text \<open>\<open>e = 2.71828\<close>\<close>

definition e :: real where
  "e = 271828 / 100000"

text \<open>
  \<^verbatim>\<open>
  def g_syn(t, spks, g_max=50, tau=5):
      total = 0.0
      for i in range(len(spks)):
          total += g_max * e**(-(t-spks[i])/tau) * float(heaviside(t-spks[i]))
      return total
  \<close>
  The loop visits the spike times from first to last; \<open>g_syn_loop\<close> carries \<open>total\<close> (written \<open>total'\<close>).
\<close>

fun g_syn_loop :: "real \<Rightarrow> real list \<Rightarrow> real \<Rightarrow> real \<Rightarrow> real \<Rightarrow> error + real" where
  "g_syn_loop t [] g_max tau total' = Inr total'"
| "g_syn_loop t (s # spks) g_max tau total' =
     bind_e (py_div (- (t - s)) tau)
       (\<lambda>x. g_syn_loop t spks g_max tau
               (total' + g_max * e powr x * float_of_bool (heaviside (t - s))))"

definition g_syn :: "real \<Rightarrow> real list \<Rightarrow> real \<Rightarrow> real \<Rightarrow> error + real" where
  "g_syn t spks g_max tau = g_syn_loop t spks g_max tau 0"

text \<open>
  \<^verbatim>\<open>
  def I_AMPA(t, V_t, spks, g_max=50, tau=4, E=0):
      return 1e-3 * g_syn(t, spks, g_max, tau) * (V_t-E)
  def I_GABA(t, V_t, spks, g_max=50, tau=8, E=-70):
      return 1e-3*g_syn(t, spks, g_max, tau) * (V_t-E)
  \<close>
  The default arguments are written out at the call sites below.
\<close>

definition I_AMPA :: "real \<Rightarrow> real \<Rightarrow> real list \<Rightarrow> real \<Rightarrow> real \<Rightarrow> real \<Rightarrow> error + real" where
  "I_AMPA t V_t spks g_max tau E =
     bind_e (g_syn t spks g_max tau) (\<lambda>g. Inr (1 / 1000 * g * (V_t - E)))"

definition I_GABA :: "real \<Rightarrow> real \<Rightarrow> real list \<Rightarrow> real \<Rightarrow> real \<Rightarrow> real \<Rightarrow> error + real" where
  "I_GABA t V_t spks g_max tau E =
     bind_e (g_syn t spks g_max tau) (\<lambda>g. Inr (1 / 1000 * g * (V_t - E)))"

section \<open>The membrane simulation\<close>

text \<open>
  The neuronal parameters are module-level variables of the notebook; here they are the
  fields of a record, so that the update rule is stated for any values of them.
\<close>

record neuron =
  V_rest :: real
  C_m :: real
  R_m :: real
  I_e :: real
  A :: real

text \<open>The values the notebook assigns.\<close>

definition notebook_neuron :: neuron where
  "notebook_neuron = \<lparr>V_rest = -65, C_m = 1, R_m = 100, I_e = 0, A = 10\<rparr>"

text \<open>
  One pass through the body of
  \<^verbatim>\<open>
  for i in range(num_iter):
      t = i*dt
      I_leak = (V_t - V_rest)/R_m
      I_syn = I_GABA(t, V_t, inh_spks) + I_AMPA(t, V_t, exc_spks)
      dV = (-I_leak - I_syn + I_e/A) * dt/C_m
      V_t = V_t + dV
  \<close>
\<close>

definition sim_step ::
  "neuron \<Rightarrow> real \<Rightarrow> real list \<Rightarrow> real list \<Rightarrow> nat \<Rightarrow> real \<Rightarrow> error + real" where
  "sim_step p dt inh_spks exc_spks i V_t =
     (let t = real i * dt in
      bind_e (py_div (V_t - V_rest p) (R_m p)) (\<lambda>I_leak.
      bind_e (I_GABA t V_t inh_spks 50 8 (-70)) (\<lambda>gaba.
      bind_e (I_AMPA t V_t exc_spks 50 4 0) (\<lambda>ampa.
      let I_syn = gaba + ampa in
      bind_e (py_div (I_e p) (A p)) (\<lambda>ie.
      bind_e (py_div ((- I_leak - I_syn + ie) * dt) (C_m p)) (\<lambda>dV.
      Inr (V_t + dV)))))))"

fun sim_loop ::
  "neuron \<Rightarrow> real \<Rightarrow> real list \<Rightarrow> real list \<Rightarrow> nat list \<Rightarrow> real \<Rightarrow> error + real" where
  "sim_loop p dt inh_spks exc_spks [] V_t = Inr V_t"
| "sim_loop p dt inh_spks exc_spks (i # rest) V_t =
     bind_e (sim_step p dt inh_spks exc_spks i V_t) (sim_loop p dt inh_spks exc_spks rest)"

definition simulate ::
  "neuron \<Rightarrow> real \<Rightarrow> real list \<Rightarrow> real list \<Rightarrow> nat \<Rightarrow> real \<Rightarrow> error + real" where
  "simulate p dt inh_spks exc_spks num_iter V0 =
     sim_loop p dt inh_spks exc_spks [0..<num_iter] V0"

text \<open>
  The leak-only loop of the first notebook:
  \<^verbatim>\<open>
  for i in range(num_iter):
      I_leak = (V_t - V_rest)/R_m
      dV = (-I_leak + I_e) * dt/C_m
      V_t = V_t + dV
  \<close>
\<close>

definition leak_step :: "neuron \<Rightarrow> real \<Rightarrow> real \<Rightarrow> error + real" where
  "leak_step p dt V_t =
     bind_e (py_div (V_t - V_rest p) (R_m p)) (\<lambda>I_leak.
     bind_e (py_div ((- I_leak + I_e p) * dt) (C_m p)) (\<lambda>dV.
     Inr (V_t + dV)))"

fun leak_loop :: "neuron \<Rightarrow> real \<Rightarrow> nat \<Rightarrow> real \<Rightarrow> error + real" where
  "leak_loop p dt 0 V_t = Inr V_t"
| "leak_loop p dt (Suc n) V_t = bind_e (leak_step p dt V_t) (leak_loop p dt n)"

section \<open>Reversal potentials\<close>

text \<open>
  \<^verbatim>\<open>
  R = 8.314
  F = 96485
  T = 310.25
  RTF = R*T/F
  \<close>
\<close>

definition R :: real where "R = 8314 / 1000"
definition F :: real where "F = 96485"
definition T :: real where "T = 31025 / 100"
definition RTF :: real where "RTF = R * T / F"

text \<open>
  \<^verbatim>\<open>
  def nernst_ind(C_out, C_in, sign):
      return RTF/sign * np.log(C_out/C_in)*1000
  \<close>
\<close>

definition nernst_ind :: "real \<Rightarrow> real \<Rightarrow> real \<Rightarrow> error + npfloat" where
  "nernst_ind C_out C_in sign =
     bind_e (py_div RTF sign) (\<lambda>k.
     bind_e (py_div C_out C_in) (\<lambda>q.
     Inr (np_mul 1000 (np_mul k (np_log q)))))"

text \<open>
  \<^verbatim>\<open>
  def ghk(C_outs, C_ins, ps, zs):
      dividend = 0
      divisor = 0
      for cin, cout, p, z  in zip(C_ins, C_outs, ps, zs):
          assert abs(z) == 1, "only monovalent ions supported"
          if z>0:
              dividend += p*cout
              divisor += p*cin
          else:
              dividend += p*cin
              divisor += p*cout
      return RTF*np.log(dividend/divisor)*1000
  \<close>
  \<open>zip4\<close> is Python's four-argument \<open>zip\<close>, which ends with the shortest argument.
\<close>

definition zip4 :: "'a list \<Rightarrow> 'b list \<Rightarrow> 'c list \<Rightarrow> 'd list \<Rightarrow> ('a \<times> 'b \<times> 'c \<times> 'd) list" where
  "zip4 as bs cs ds = zip as (zip bs (zip cs ds))"

fun ghk_loop :: "(real \<times> real \<times> real \<times> real) list \<Rightarrow> real \<Rightarrow> real \<Rightarrow> error + real \<times> real" where
  "ghk_loop [] dividend divisor = Inr (dividend, divisor)"
| "ghk_loop ((cin, cout, p, z) # rest) dividend divisor =
     (if \<bar>z\<bar> \<noteq> 1 then Inl AssertionError
      else if z > 0 then ghk_loop rest (dividend + p * cout) (divisor + p * cin)
      else ghk_loop rest (dividend + p * cin) (divisor + p * cout))"

definition ghk :: "real list \<Rightarrow> real list \<Rightarrow> real list \<Rightarrow> real list \<Rightarrow> error + npfloat" where
  "ghk C_outs C_ins ps zs =
     bind_e (ghk_loop (zip4 C_ins C_outs ps zs) 0 0) (\<lambda>(dividend, divisor).
     bind_e (py_div dividend divisor) (\<lambda>q.
     Inr (np_mul 1000 (np_mul RTF (np_log q)))))"

text \<open>
  The specification's reading of the GHK quotient, to be compared with what \<open>ghk_loop\<close>
  accumulates: each positive-valence ion contributes \<open>p * C_out\<close> to the numerator and
  \<open>p * C_in\<close> to the denominator, each negative-valence ion contributes \<open>p * C_in\<close>
  to the numerator and \<open>p * C_out\<close> to the denominator.
\<close>

definition spec_numerator :: "real list \<Rightarrow> real list \<Rightarrow> real list \<Rightarrow> real list \<Rightarrow> real" where
  "spec_numerator C_outs C_ins ps zs =
     (\<Sum>i<length zs. if 0 < zs ! i then ps ! i * C_outs ! i else ps ! i * C_ins ! i)"

definition spec_denominator :: "real list \<Rightarrow> real list \<Rightarrow> real list \<Rightarrow> real list \<Rightarrow> real" where
  "spec_denominator C_outs C_ins ps zs =
     (\<Sum>i<length zs. if 0 < zs ! i then ps ! i * C_ins ! i else ps ! i * C_outs ! i)"

section \<open>Sequencing and bounds on the exponential\<close>

lemma bind_e_Inr [simp]: "bind_e (Inr v) f = f v"
  by (simp add: bind_e_def)

lemma bind_e_Inl [simp]: "bind_e (Inl err) f = Inl err"
  by (simp add: bind_e_def)

text \<open>Partial sums of the exponential series bound \<open>exp\<close> from below and, scaled, from above.\<close>

lemma exp_lower_sum:
  fixes x :: real
  assumes "0 \<le> x"
  shows "(\<Sum>k<n. x ^ k / fact k) \<le> exp x"
proof -
  obtain t where "exp x = (\<Sum>m<n. x ^ m / fact m) + (exp t / fact n) * x ^ n"
    using Maclaurin_exp_le [of x n] by blast
  moreover have "0 \<le> (exp t / fact n) * x ^ n"
    using assms by simp
  ultimately show ?thesis by linarith
qed

lemma exp_upper_sum:
  fixes x :: real
  assumes "0 \<le> x" and "x ^ n / fact n < 1"
  shows "exp x \<le> (\<Sum>k<n. x ^ k / fact k) / (1 - x ^ n / fact n)"
proof -
  define r where "r = x ^ n / fact n"
  define S where "S = (\<Sum>k<n. x ^ k / fact k)"
  obtain t where t: "\<bar>t\<bar> \<le> \<bar>x\<bar>"
    and eq: "exp x = (\<Sum>m<n. x ^ m / fact m) + (exp t / fact n) * x ^ n"
    using Maclaurin_exp_le [of x n] by blast
  have eq': "exp x = S + exp t * r"
    using eq by (simp add: r_def S_def)
  have r0: "0 \<le> r" using assms(1) by (simp add: r_def)
  have "exp t \<le> exp x" using t assms(1) by simp
  then have "exp t * r \<le> exp x * r"
    using r0 by (rule mult_right_mono)
  with eq' have "exp x * (1 - r) \<le> S"
    by (simp add: algebra_simps)
  moreover have "0 < 1 - r" using assms(2) by (simp add: r_def)
  ultimately have "exp x \<le> S / (1 - r)"
    by (simp add: pos_le_divide_eq)
  then show ?thesis by (simp add: r_def S_def)
qed

lemma e_below_exp_1: "e < exp 1"
proof -
  have "e < (\<Sum>k<10. 1 ^ k / fact k)"
    by (simp add: e_def eval_nat_numeral)
  also have "\<dots> \<le> exp 1" by (rule exp_lower_sum) simp
  finally show ?thesis .
qed

lemma ln3_lower: "(10985 / 10000 :: real) \<le> ln 3"
proof -
  have "exp (10985 / 10000 :: real)
      \<le> (\<Sum>k<10. (10985 / 10000) ^ k / fact k) / (1 - (10985 / 10000) ^ 10 / fact 10)"
    by (rule exp_upper_sum) (simp_all add: eval_nat_numeral)
  also have "\<dots> \<le> 3"
    by (simp add: eval_nat_numeral)
  finally show ?thesis using ln_ge_iff [of 3 "10985 / 10000"] by simp
qed

lemma ln3_upper: "ln 3 \<le> (10987 / 10000 :: real)"
proof -
  have "(3::real) \<le> (\<Sum>k<10. (10987 / 10000) ^ k / fact k)"
    by (simp add: eval_nat_numeral)
  also have "\<dots> \<le> exp (10987 / 10000)" by (rule exp_lower_sum) simp
  finally have "ln 3 \<le> ln (exp (10987 / 10000 :: real))"
    by (subst ln_le_cancel_iff) simp_all
  then show ?thesis by simp
qed

lemma ln27: "ln (27::real) = 3 * ln 3"
proof -
  have "ln (27::real) = ln (3 ^ 3)" by simp
  also have "\<dots> = 3 * ln 3" by (subst ln_realpow) simp_all
  finally show ?thesis .
qed

lemma ln_ghk_lower: "(26082 / 10000 :: real) \<le> ln (801 / 59)"
proof -
  have "exp (26082 / 10000 :: real)
      \<le> (\<Sum>k<16. (26082 / 10000) ^ k / fact k) / (1 - (26082 / 10000) ^ 16 / fact 16)"
    by (rule exp_upper_sum) (simp_all add: eval_nat_numeral)
  also have "\<dots> \<le> 801 / 59"
    by (simp add: eval_nat_numeral)
  finally show ?thesis using ln_ge_iff [of "801 / 59" "26082 / 10000"] by simp
qed

lemma ln_ghk_upper: "ln (801 / 59) \<le> (26084 / 10000 :: real)"
proof -
  have "(801 / 59 :: real) \<le> (\<Sum>k<16. (26084 / 10000) ^ k / fact k)"
    by (simp add: eval_nat_numeral)
  also have "\<dots> \<le> exp (26084 / 10000)" by (rule exp_lower_sum) simp
  finally have "ln (801 / 59) \<le> ln (exp (26084 / 10000 :: real))"
    by (subst ln_le_cancel_iff) simp_all
  then show ?thesis by simp
qed

lemma decay_4060: "(199 / 200 :: real) ^ 4060 \<le> 1 / 2000000"
proof -
  have a: "(199 / 200 :: real) ^ 140 \<le> 1 / 2" by (simp add: power_divide)
  have "(199 / 200 :: real) ^ 4060 = ((199 / 200) ^ 140) ^ 29"
    by (simp add: power_mult [symmetric])
  also have "\<dots> \<le> (1 / 2) ^ 29"
    by (rule power_mono [OF a]) simp
  also have "\<dots> \<le> 1 / 2000000" by (simp add: power_divide)
  finally show ?thesis .
qed

section \<open>The synaptic conductance\<close>

lemma g_syn_loop_sum:
  "tau \<noteq> 0 \<Longrightarrow>
   g_syn_loop t spks g_max tau total' =
     Inr (total' + (\<Sum>s\<leftarrow>spks. g_max * e powr (- (t - s) / tau) * (if 0 \<le> t - s then 1 else 0)))"
  by (induction spks arbitrary: total')
     (simp_all add: py_div_def heaviside_def float_of_bool_def algebra_simps)

lemma g_syn_sum:
  "tau \<noteq> 0 \<Longrightarrow>
   g_syn t spks g_max tau =
     Inr (\<Sum>s\<leftarrow>spks. g_max * e powr (- (t - s) / tau) * (if 0 \<le> t - s then 1 else 0))"
  by (simp add: g_syn_def g_syn_loop_sum)

text \<open>
  C6: a query at the instant of the only spike returns the peak conductance \<open>g_max\<close>,
  for every \<open>g_max\<close>, every spike time and every positive \<open>tau\<close>.
\<close>

theorem g_syn_at_spike_instant:
  "0 < tau \<Longrightarrow> g_syn t_s [t_s] g_max tau = Inr g_max"
  by (simp add: g_syn_def py_div_def heaviside_def float_of_bool_def e_def)

theorem g_syn_at_spike_instant_witness:
  "(0::real) < 5 \<and> g_syn 40 [40] 50 5 = Inr 50"
  using g_syn_at_spike_instant [of 5 40 50] by simp

text \<open>
  C2: the claim takes the decay factor to be the natural exponential. The loop raises the
  constant \<open>2.71828\<close> to the power instead: one time unit after a single spike, with
  \<open>g_max = 1\<close> and \<open>tau = 1\<close>, it returns \<open>1 / 2.71828\<close>, which is more than
  \<open>g_max * exp (- (t - t_s) / tau)\<close>.
\<close>

theorem g_syn_base_is_not_exp:
  "g_syn 1 [0] 1 1 = Inr (100000 / 271828) \<and> 1 * exp (- (1 - 0) / 1) < (100000 / 271828 :: real)"
proof
  have "e powr (- 1) = 100000 / 271828"
    by (simp add: powr_minus e_def divide_simps)
  then show "g_syn 1 [0] 1 1 = Inr (100000 / 271828)"
    by (simp add: g_syn_def py_div_def heaviside_def float_of_bool_def)
next
  have "exp (- 1 :: real) = 1 / exp 1" by (simp add: exp_minus divide_simps)
  also have "\<dots> < 1 / e"
    using e_below_exp_1 by (intro divide_strict_left_mono) (simp_all add: e_def)
  also have "\<dots> = 100000 / 271828" by (simp add: e_def)
  finally show "1 * exp (- (1 - 0) / 1) < (100000 / 271828 :: real)" by simp
qed

section \<open>The leak-only loop\<close>

lemma leak_step_value:
  "R_m p \<noteq> 0 \<Longrightarrow> C_m p \<noteq> 0 \<Longrightarrow>
   leak_step p dt V = Inr (V + (- ((V - V_rest p) / R_m p) + I_e p) * dt / C_m p)"
  by (simp add: leak_step_def py_div_def)

lemma leak_loop_closed_form:
  assumes "R_m p \<noteq> 0" "C_m p \<noteq> 0" "I_e p = 0"
  shows "leak_loop p dt n V = Inr (V_rest p + (V - V_rest p) * (1 - dt / (R_m p * C_m p)) ^ n)"
proof (induction n arbitrary: V)
  case 0
  show ?case by simp
next
  case (Suc n)
  define V' where "V' = V + (- ((V - V_rest p) / R_m p) + I_e p) * dt / C_m p"
  have step: "V' - V_rest p = (V - V_rest p) * (1 - dt / (R_m p * C_m p))"
    using assms by (simp add: V'_def field_simps)
  have "leak_loop p dt (Suc n) V = leak_loop p dt n V'"
    using assms(1,2) by (simp add: leak_step_value V'_def)
  also have "\<dots> = Inr (V_rest p + (V' - V_rest p) * (1 - dt / (R_m p * C_m p)) ^ n)"
    by (rule Suc.IH)
  also have "(V' - V_rest p) * (1 - dt / (R_m p * C_m p)) ^ n
      = (V - V_rest p) * (1 - dt / (R_m p * C_m p)) ^ Suc n"
    by (simp only: step power_Suc mult.assoc)
  finally show ?case .
qed

text \<open>
  C3: with no synaptic and no external current, \<open>V_rest = -65\<close>, \<open>C_m = 1\<close>,
  \<open>R_m = 100\<close>, \<open>dt = 0.5\<close> and a start two millivolts above rest, the loop completes
  its 4060 passes and ends within 0.001 mV of the resting potential.
\<close>

theorem leak_loop_reaches_rest:
  "\<exists>V. leak_loop notebook_neuron (1 / 2) 4060 (V_rest notebook_neuron + 2) = Inr V
       \<and> \<bar>V - V_rest notebook_neuron\<bar> \<le> 1 / 1000
       \<and> V_rest notebook_neuron = - 65 \<and> C_m notebook_neuron = 1
       \<and> R_m notebook_neuron = 100 \<and> I_e notebook_neuron = 0"
proof -
  have loop: "leak_loop notebook_neuron (1 / 2) 4060 (V_rest notebook_neuron + 2)
      = Inr (V_rest notebook_neuron + 2 * (199 / 200) ^ 4060)"
    by (subst leak_loop_closed_form) (simp_all add: notebook_neuron_def)
  have "0 \<le> (199 / 200 :: real) ^ 4060" by simp
  moreover have "2 * (199 / 200 :: real) ^ 4060 \<le> 1 / 1000"
    using decay_4060 by linarith
  ultimately have "\<bar>(V_rest notebook_neuron + 2 * (199 / 200) ^ 4060) - V_rest notebook_neuron\<bar> \<le> 1 / 1000"
    by simp
  then show ?thesis
    using loop by (simp add: notebook_neuron_def)
qed

section \<open>The simulation loop\<close>

lemma sim_loop_append:
  "sim_loop p dt inh exc (xs @ ys) V = bind_e (sim_loop p dt inh exc xs V) (sim_loop p dt inh exc ys)"
proof (induction xs arbitrary: V)
  case Nil
  show ?case by simp
next
  case (Cons i xs)
  show ?case
    by (cases "sim_step p dt inh exc i V") (simp_all add: Cons.IH)
qed

lemma sim_loop_single: "sim_loop p dt inh exc [k] V = sim_step p dt inh exc k V"
  by (cases "sim_step p dt inh exc k V") simp_all

lemma simulate_Suc:
  "simulate p dt inh exc (Suc k) V0 = bind_e (simulate p dt inh exc k V0) (sim_step p dt inh exc k)"
proof -
  have "sim_loop p dt inh exc [k] = sim_step p dt inh exc k"
    by (rule ext) (rule sim_loop_single)
  then show ?thesis
    by (simp add: simulate_def sim_loop_append)
qed

lemma sim_step_value:
  assumes "R_m p \<noteq> 0" "A p \<noteq> 0" "C_m p \<noteq> 0"
  shows "sim_step p dt inh_spks exc_spks i V =
    Inr (V + (- ((V - V_rest p) / R_m p)
              - (1 / 1000 * (\<Sum>s\<leftarrow>inh_spks. 50 * e powr (- (real i * dt - s) / 8)
                                  * (if 0 \<le> real i * dt - s then 1 else 0)) * (V - (- 70))
                 + 1 / 1000 * (\<Sum>s\<leftarrow>exc_spks. 50 * e powr (- (real i * dt - s) / 4)
                                  * (if 0 \<le> real i * dt - s then 1 else 0)) * (V - 0))
              + I_e p / A p) * dt / C_m p)"
  using assms by (simp add: sim_step_def I_GABA_def I_AMPA_def g_syn_sum py_div_def Let_def)

lemma simulate_returns:
  assumes "R_m p \<noteq> 0" "A p \<noteq> 0" "C_m p \<noteq> 0"
  shows "\<exists>V. simulate p dt inh exc k V0 = Inr V"
proof (induction k)
  case 0
  show ?case by (simp add: simulate_def)
next
  case (Suc k)
  then obtain V where "simulate p dt inh exc k V0 = Inr V" by blast
  then show ?case
    by (simp add: simulate_Suc sim_step_value [OF assms])
qed

text \<open>
  C1: pass number \<open>i\<close> of the simulation loop starts from the voltage \<open>V\<close> that \<open>i\<close>
  passes have produced and replaces it by \<open>V + dV\<close>, where
  \<open>dV = (-(V - V_rest)/R_m - I_syn + I_e/A) * dt/C_m\<close>; the synaptic current is evaluated
  at the time \<open>i * dt\<close> and, like the leak current, at the voltage \<open>V\<close> from before the pass.
\<close>

theorem simulate_explicit_euler:
  assumes "R_m p \<noteq> 0" "A p \<noteq> 0" "C_m p \<noteq> 0"
  shows "\<exists>V. simulate p dt inh_spks exc_spks i V0 = Inr V \<and>
    simulate p dt inh_spks exc_spks (Suc i) V0 =
      Inr (V + (- ((V - V_rest p) / R_m p)
                - (1 / 1000 * (\<Sum>s\<leftarrow>inh_spks. 50 * e powr (- (real i * dt - s) / 8)
                                    * (if 0 \<le> real i * dt - s then 1 else 0)) * (V - (- 70))
                   + 1 / 1000 * (\<Sum>s\<leftarrow>exc_spks. 50 * e powr (- (real i * dt - s) / 4)
                                    * (if 0 \<le> real i * dt - s then 1 else 0)) * (V - 0))
                + I_e p / A p) * dt / C_m p)"
proof -
  obtain V where V: "simulate p dt inh_spks exc_spks i V0 = Inr V"
    using simulate_returns [OF assms] by blast
  show ?thesis
    unfolding simulate_Suc V by (simp add: sim_step_value [OF assms])
qed

theorem simulate_explicit_euler_witness:
  "R_m notebook_neuron \<noteq> 0 \<and> A notebook_neuron \<noteq> 0 \<and> C_m notebook_neuron \<noteq> 0 \<and>
   simulate notebook_neuron (1 / 10) [2, 8] [19 / 10, 22, 40] 0 (- 63) = Inr (- 63) \<and>
   simulate notebook_neuron (1 / 10) [2, 8] [19 / 10, 22, 40] 1 (- 63) = Inr (- 63 - 2 / 1000)"
proof -
  have h: "R_m notebook_neuron \<noteq> 0" "A notebook_neuron \<noteq> 0" "C_m notebook_neuron \<noteq> 0"
    by (simp_all add: notebook_neuron_def)
  have z: "simulate notebook_neuron (1 / 10) [2, 8] [19 / 10, 22, 40] 0 (- 63) = Inr (- 63)"
    by (simp add: simulate_def)
  from simulate_explicit_euler [OF h, of "1 / 10" "[2, 8]" "[19 / 10, 22, 40]" 0 "- 63"] z
  have "simulate notebook_neuron (1 / 10) [2, 8] [19 / 10, 22, 40] (Suc 0) (- 63)
      = Inr (- 63 - 2 / 1000)"
    by (simp add: notebook_neuron_def)
  with h z show ?thesis by simp
qed

section \<open>The Nernst potential\<close>

lemma RTF_value: "RTF = 5158837 / 192970000"
  by (simp add: RTF_def R_def T_def F_def)

lemma nernst_ind_cases:
  "nernst_ind C_out C_in z =
     (if z = 0 \<or> C_in = 0 then Inl ZeroDivisionError
      else if 0 < C_out / C_in then Inr (Finite (RTF / z * ln (C_out / C_in) * 1000))
      else if C_out = 0 then Inr (if 0 < z then NegInf else PosInf)
      else Inr NaN)"
proof -
  have pos: "0 < RTF" by (simp add: RTF_value)
  show ?thesis
    using pos
    by (auto simp add: nernst_ind_def py_div_def np_log_def zero_less_divide_iff
          divide_less_0_iff not_less)
qed

text \<open>
  C5: for positive concentrations and a nonzero valence, \<open>nernst_ind\<close> returns
  \<open>(RTF / valence) * ln (C_out / C_in) * 1000\<close> with the natural logarithm and
  \<open>RTF = R * T / F\<close> for \<open>R = 8.314\<close>, \<open>F = 96485\<close>, \<open>T = 310.25\<close>; for
  \<open>(135, 5, -1)\<close> the result is within 0.01 of \<open>-88.11\<close>.
\<close>

theorem nernst_ind_formula:
  "(0 < C_out \<and> 0 < C_in \<and> z \<noteq> 0 \<longrightarrow>
      nernst_ind C_out C_in z = Inr (Finite ((RTF / z) * ln (C_out / C_in) * 1000)))
   \<and> RTF = (8314 / 1000) * (31025 / 100) / 96485
   \<and> (\<exists>v. nernst_ind 135 5 (- 1) = Inr (Finite v) \<and> \<bar>v - (- 8811 / 100)\<bar> < 1 / 100)"
proof (intro conjI impI)
  assume "0 < C_out \<and> 0 < C_in \<and> z \<noteq> 0"
  then show "nernst_ind C_out C_in z = Inr (Finite ((RTF / z) * ln (C_out / C_in) * 1000))"
    by (simp add: nernst_ind_cases)
next
  show "RTF = (8314 / 1000) * (31025 / 100) / 96485"
    by (simp add: RTF_def R_def T_def F_def)
next
  have val: "nernst_ind 135 5 (- 1) = Inr (Finite (- (5158837 / 192970) * (3 * ln 3)))"
    by (simp add: nernst_ind_cases RTF_value ln27)
  have "\<bar>- (5158837 / 192970) * (3 * ln 3) - (- 8811 / 100 :: real)\<bar> < 1 / 100"
    using ln3_lower ln3_upper by linarith
  with val show "\<exists>v. nernst_ind 135 5 (- 1) = Inr (Finite v) \<and> \<bar>v - (- 8811 / 100)\<bar> < 1 / 100"
    by blast
qed

theorem nernst_ind_formula_witness:
  "(0::real) < 135 \<and> (0::real) < 5 \<and> (- 1 :: real) \<noteq> 0 \<and>
   nernst_ind 135 5 (- 1) = Inr (Finite ((RTF / (- 1)) * ln (135 / 5) * 1000))"
  using nernst_ind_formula [of 135 5 "- 1"] by simp

text \<open>
  C9, as the code has it: \<open>nernst_ind\<close> validates nothing. It fails exactly when the
  valence or the inner concentration is zero, and then with the interpreter's
  \<open>ZeroDivisionError\<close>; every other input returns a value: the potential when
  \<open>C_out / C_in\<close> is positive, an infinity when \<open>C_out\<close> is zero, \<open>nan\<close> when the
  quotient is negative.
\<close>

theorem nernst_ind_failure:
  "(isl (nernst_ind C_out C_in z) \<longleftrightarrow> z = 0 \<or> C_in = 0)
   \<and> (isl (nernst_ind C_out C_in z) \<longleftrightarrow> nernst_ind C_out C_in z = Inl ZeroDivisionError)
   \<and> nernst_ind C_out C_in z =
       (if z = 0 \<or> C_in = 0 then Inl ZeroDivisionError
        else if 0 < C_out / C_in then Inr (Finite (RTF / z * ln (C_out / C_in) * 1000))
        else if C_out = 0 then Inr (if 0 < z then NegInf else PosInf)
        else Inr NaN)"
  by (simp add: nernst_ind_cases)

theorem nernst_ind_failure_witness:
  "nernst_ind 135 0 (- 1) = Inl ZeroDivisionError \<and> nernst_ind 0 5 (- 1) = Inr PosInf
   \<and> nernst_ind (- 135) 5 (- 1) = Inr NaN"
  using nernst_ind_failure [of 135 0 "- 1"] nernst_ind_failure [of 0 5 "- 1"]
    nernst_ind_failure [of "- 135" 5 "- 1"]
  by simp

text \<open>
  The claim C9 as written fails where both concentrations are negative: the quotient is
  positive, and a potential is returned without any error.
\<close>

theorem nernst_ind_negative_concentrations_counterexample:
  "\<not> (isl (nernst_ind (- 135) (- 5) (- 1)) \<longleftrightarrow> (- 135 :: real) \<le> 0 \<or> (- 5 :: real) \<le> 0 \<or> (- 1 :: real) = 0)"
  by (simp add: nernst_ind_def py_div_def)

section \<open>The GHK potential\<close>

lemma ghk_loop_assert:
  "(cin, cout, p, z) \<in> set l \<Longrightarrow> \<bar>z\<bar> \<noteq> 1 \<Longrightarrow> ghk_loop l a b = Inl AssertionError"
proof (induction l a b rule: ghk_loop.induct)
  case (1 dividend divisor)
  then show ?case by simp
next
  case (2 cin' cout' p' z' rest dividend divisor)
  then show ?case by (cases "\<bar>z'\<bar> \<noteq> 1") auto
qed

lemma ghk_loop_sums:
  "\<forall>q\<in>set l. \<bar>snd (snd (snd q))\<bar> = 1 \<Longrightarrow>
   ghk_loop l a b =
     Inr (a + (\<Sum>(cin, cout, p, z)\<leftarrow>l. if 0 < z then p * cout else p * cin),
          b + (\<Sum>(cin, cout, p, z)\<leftarrow>l. if 0 < z then p * cin else p * cout))"
proof (induction l arbitrary: a b)
  case Nil
  show ?case by simp
next
  case (Cons q l)
  obtain cin cout p z where q: "q = (cin, cout, p, z)"
    by (cases q) auto
  from Cons.prems have z: "\<bar>z\<bar> = 1" and rest: "\<forall>q\<in>set l. \<bar>snd (snd (snd q))\<bar> = 1"
    by (simp_all add: q)
  show ?case
    by (simp add: q z Cons.IH [OF rest] algebra_simps)
qed

lemma zip4_nth:
  "i < length as \<Longrightarrow> i < length bs \<Longrightarrow> i < length cs \<Longrightarrow> i < length ds \<Longrightarrow>
   zip4 as bs cs ds ! i = (as ! i, bs ! i, cs ! i, ds ! i)"
  by (simp add: zip4_def)

lemma length_zip4:
  "length (zip4 as bs cs ds) = min (length as) (min (length bs) (min (length cs) (length ds)))"
  by (simp add: zip4_def)

lemma sum_list_zip4:
  assumes "length C_outs = length zs" "length C_ins = length zs" "length ps = length zs"
  shows "(\<Sum>q\<leftarrow>zip4 C_ins C_outs ps zs. f q)
      = (\<Sum>i<length zs. f (C_ins ! i, C_outs ! i, ps ! i, zs ! i))"
proof -
  have "(\<Sum>q\<leftarrow>zip4 C_ins C_outs ps zs. f q)
      = (\<Sum>i = 0..<length (zip4 C_ins C_outs ps zs). f (zip4 C_ins C_outs ps zs ! i))"
    by (simp add: sum_list_sum_nth)
  also have "\<dots> = (\<Sum>i = 0..<length zs. f (C_ins ! i, C_outs ! i, ps ! i, zs ! i))"
    using assms by (intro sum.cong) (simp_all add: length_zip4 zip4_nth)
  finally show ?thesis by (simp add: atLeast0LessThan)
qed

lemma ghk_value:
  assumes len: "length C_outs = length zs" "length C_ins = length zs" "length ps = length zs"
    and mono: "\<forall>i<length zs. \<bar>zs ! i\<bar> = 1"
  shows "ghk C_outs C_ins ps zs =
     bind_e (py_div (spec_numerator C_outs C_ins ps zs) (spec_denominator C_outs C_ins ps zs))
       (\<lambda>q. Inr (np_mul 1000 (np_mul RTF (np_log q))))"
proof -
  have all: "\<forall>q\<in>set (zip4 C_ins C_outs ps zs). \<bar>snd (snd (snd q))\<bar> = 1"
  proof
    fix q assume "q \<in> set (zip4 C_ins C_outs ps zs)"
    then obtain i where i: "i < length (zip4 C_ins C_outs ps zs)"
      and q: "q = zip4 C_ins C_outs ps zs ! i"
      by (auto simp add: in_set_conv_nth)
    from i len have "i < length zs" by (simp add: length_zip4)
    with q len mono show "\<bar>snd (snd (snd q))\<bar> = 1" by (simp add: zip4_nth)
  qed
  have n: "(\<Sum>(cin, cout, p, z)\<leftarrow>zip4 C_ins C_outs ps zs. if 0 < z then p * cout else p * cin)
      = spec_numerator C_outs C_ins ps zs"
    unfolding spec_numerator_def by (subst sum_list_zip4 [OF len]) simp
  have d: "(\<Sum>(cin, cout, p, z)\<leftarrow>zip4 C_ins C_outs ps zs. if 0 < z then p * cin else p * cout)
      = spec_denominator C_outs C_ins ps zs"
    unfolding spec_denominator_def by (subst sum_list_zip4 [OF len]) simp
  show ?thesis
    by (simp add: ghk_def ghk_loop_sums [OF all] n d)
qed

text \<open>
  C4, as the code has it: for four sequences of equal length \<open>N \<ge> 1\<close> whose valences all
  have magnitude 1 and whose quotient of numerator by denominator is positive, \<open>ghk\<close>
  returns \<open>RTF * ln (numerator / denominator) * 1000\<close>, numerator and denominator being
  the sums the specification describes; for the docstring's input the result rounds to
  \<open>-69.73\<close> at two decimals.
\<close>

theorem ghk_formula:
  "(length C_outs = N \<and> length C_ins = N \<and> length ps = N \<and> length zs = N \<and> 1 \<le> N
      \<and> (\<forall>i<N. \<bar>zs ! i\<bar> = 1)
      \<and> 0 < spec_numerator C_outs C_ins ps zs / spec_denominator C_outs C_ins ps zs \<longrightarrow>
    ghk C_outs C_ins ps zs =
      Inr (Finite (RTF * ln (spec_numerator C_outs C_ins ps zs / spec_denominator C_outs C_ins ps zs)
                   * 1000)))
   \<and> (\<exists>v. ghk [4, 125, 110] [150, 15, 10] [1, 5 / 100, 45 / 100] [1, 1, - 1] = Inr (Finite v)
          \<and> \<bar>v - (- 6973 / 100)\<bar> < 5 / 1000)"
proof (intro conjI impI)
  assume h: "length C_outs = N \<and> length C_ins = N \<and> length ps = N \<and> length zs = N \<and> 1 \<le> N
      \<and> (\<forall>i<N. \<bar>zs ! i\<bar> = 1)
      \<and> 0 < spec_numerator C_outs C_ins ps zs / spec_denominator C_outs C_ins ps zs"
  then have den: "spec_denominator C_outs C_ins ps zs \<noteq> 0" by auto
  from h have "ghk C_outs C_ins ps zs =
     bind_e (py_div (spec_numerator C_outs C_ins ps zs) (spec_denominator C_outs C_ins ps zs))
       (\<lambda>q. Inr (np_mul 1000 (np_mul RTF (np_log q))))"
    by (intro ghk_value) simp_all
  with h den show "ghk C_outs C_ins ps zs =
      Inr (Finite (RTF * ln (spec_numerator C_outs C_ins ps zs / spec_denominator C_outs C_ins ps zs)
                   * 1000))"
    by (simp add: py_div_def np_log_def)
next
  have val: "ghk [4, 125, 110] [150, 15, 10] [1, 5 / 100, 45 / 100] [1, 1, - 1]
      = Inr (Finite (1000 * (RTF * ln (59 / 801))))"
    by (simp add: ghk_def zip4_def py_div_def np_log_def)
  have "ln (59 / 801 :: real) = - ln (801 / 59)"
    by (subst ln_div) (simp_all add: ln_div)
  then have "1000 * (RTF * ln (59 / 801)) = - (5158837 / 192970) * ln (801 / 59)"
    by (simp add: RTF_value)
  then have "\<bar>1000 * (RTF * ln (59 / 801)) - (- 6973 / 100)\<bar> < 5 / 1000"
    using ln_ghk_lower ln_ghk_upper by linarith
  with val show "\<exists>v. ghk [4, 125, 110] [150, 15, 10] [1, 5 / 100, 45 / 100] [1, 1, - 1] = Inr (Finite v)
          \<and> \<bar>v - (- 6973 / 100)\<bar> < 5 / 1000"
    by blast
qed

theorem ghk_formula_witness:
  "length [4, 125, 110 :: real] = 3 \<and> (1::nat) \<le> 3
   \<and> 0 < spec_numerator [4, 125, 110] [150, 15, 10] [1, 1 / 20, 9 / 20] [1, 1, - 1]
          / spec_denominator [4, 125, 110] [150, 15, 10] [1, 1 / 20, 9 / 20] [1, 1, - 1]
   \<and> ghk [4, 125, 110] [150, 15, 10] [1, 1 / 20, 9 / 20] [1, 1, - 1]
       = Inr (Finite (RTF * ln (59 / 801) * 1000))"
proof -
  have n: "spec_numerator [4, 125, 110] [150, 15, 10] [1, 1 / 20, 9 / 20] [1, 1, - 1] = 59 / 4"
    by (simp add: spec_numerator_def lessThan_nat_numeral lessThan_Suc)
  have d: "spec_denominator [4, 125, 110] [150, 15, 10] [1, 1 / 20, 9 / 20] [1, 1, - 1] = 801 / 4"
    by (simp add: spec_denominator_def lessThan_nat_numeral lessThan_Suc)
  have m: "\<forall>i<3. \<bar>[1, 1, - 1 :: real] ! i\<bar> = 1"
    by (simp add: less_Suc_eq numeral_3_eq_3)
  from ghk_formula [of "[4, 125, 110]" 3 "[150, 15, 10]" "[1, 1 / 20, 9 / 20]" "[1, 1, - 1]"] m
  show ?thesis by (simp add: n d)
qed

text \<open>
  The claim C4 as written fails where the denominator is zero: one monovalent ion of
  permeability zero makes \<open>dividend / divisor\<close> the quotient \<open>0 / 0\<close>.
\<close>

theorem ghk_zero_permeability_counterexample:
  "ghk [4] [150] [0] [1] = Inl ZeroDivisionError"
  by (simp add: ghk_def zip4_def py_div_def)

text \<open>
  C8, as the code has it: when a valence of magnitude other than 1 stands at a position
  that all four sequences reach, \<open>ghk\<close> fails with the assertion error and returns no
  potential.
\<close>

theorem ghk_rejects_valence:
  assumes "i < length C_outs" "i < length C_ins" "i < length ps" "i < length zs"
    and "\<bar>zs ! i\<bar> \<noteq> 1"
  shows "ghk C_outs C_ins ps zs = Inl AssertionError"
proof -
  have "i < length (zip4 C_ins C_outs ps zs)"
    using assms(1-4) by (simp add: length_zip4)
  then have "zip4 C_ins C_outs ps zs ! i \<in> set (zip4 C_ins C_outs ps zs)"
    by (rule nth_mem)
  then have "(C_ins ! i, C_outs ! i, ps ! i, zs ! i) \<in> set (zip4 C_ins C_outs ps zs)"
    using assms(1-4) by (simp add: zip4_nth)
  then have "ghk_loop (zip4 C_ins C_outs ps zs) 0 0 = Inl AssertionError"
    using assms(5) by (rule ghk_loop_assert)
  then show ?thesis by (simp add: ghk_def)
qed

theorem ghk_rejects_valence_witness:
  "(1::nat) < length [4, 125 :: real] \<and> \<bar>[1, 2 :: real] ! 1\<bar> \<noteq> 1
   \<and> ghk [4, 125] [150, 15] [1, 5 / 100] [1, 2] = Inl AssertionError"
  using ghk_rejects_valence [of 1 "[4, 125]" "[150, 15]" "[1, 5 / 100]" "[1, 2]"] by simp

text \<open>
  The claim C8 as written fails where the offending valence lies beyond the shortest
  sequence: \<open>zip\<close> never reaches it, and a potential is returned.
\<close>

theorem ghk_unreached_valence_counterexample:
  "\<bar>[1, 2 :: real] ! 1\<bar> \<noteq> 1 \<and> ghk [4] [150] [1] [1, 2] = Inr (Finite (1000 * (RTF * ln (2 / 75))))"
  by (simp add: ghk_def zip4_def py_div_def np_log_def)

text \<open>
  C10, as the code has it: \<open>ghk\<close> never fails because the lengths differ. Whatever it
  does, return a potential or raise, is what it does on the four sequences cut to the
  length of the shortest; the elements beyond that length are ignored.
\<close>

theorem ghk_truncates:
  "ghk C_outs C_ins ps zs =
     ghk (take (min (length C_outs) (min (length C_ins) (min (length ps) (length zs)))) C_outs)
         (take (min (length C_outs) (min (length C_ins) (min (length ps) (length zs)))) C_ins)
         (take (min (length C_outs) (min (length C_ins) (min (length ps) (length zs)))) ps)
         (take (min (length C_outs) (min (length C_ins) (min (length ps) (length zs)))) zs)"
proof -
  define n where "n = min (length C_outs) (min (length C_ins) (min (length ps) (length zs)))"
  have "zip4 (take n C_ins) (take n C_outs) (take n ps) (take n zs)
      = take n (zip4 C_ins C_outs ps zs)"
    by (simp add: zip4_def take_zip)
  also have "\<dots> = zip4 C_ins C_outs ps zs"
  proof (rule take_all)
    have "length (zip4 C_ins C_outs ps zs) = n"
      unfolding length_zip4 n_def by arith
    then show "length (zip4 C_ins C_outs ps zs) \<le> n" by simp
  qed
  finally show ?thesis
    unfolding n_def [symmetric] by (simp add: ghk_def)
qed

theorem ghk_truncates_witness:
  "ghk [4, 125, 110] [150] [1, 5 / 100] [1, 1] = ghk [4] [150] [1] [1]"
  using ghk_truncates [of "[4, 125, 110]" "[150]" "[1, 5 / 100]" "[1, 1]"] by simp

text \<open>
  The claim C10 as written fails where the shortest sequence is empty: the loop body never
  runs and \<open>dividend / divisor\<close> is \<open>0 / 0\<close>.
\<close>

theorem ghk_unequal_lengths_counterexample:
  "length [4 :: real] \<noteq> length ([] :: real list) \<and> ghk [4] [] [1] [1] = Inl ZeroDivisionError"
  by (simp add: ghk_def zip4_def py_div_def)

end
